theory Spec2Isabelle
  imports Main
begin

section \<open>Course catalog service: the storage accessor and the route handlers\<close>

text \<open>
  The program is \<^verbatim>\<open>src/app.py\<close>: a Flask application that keeps a list of courses in
  the JSON file \<^verbatim>\<open>course_catalog.json\<close>. The embedding covers \<^verbatim>\<open>load_courses\<close>,
  \<^verbatim>\<open>save_courses\<close> and the handlers \<^verbatim>\<open>add_course\<close>, \<^verbatim>\<open>course_details\<close> and
  \<^verbatim>\<open>delete_course\<close>. The trace spans and the log file are written by every handler and
  read by none; they touch neither the course file nor the response nor the flashed
  messages, and are left out.
\<close>

subsection \<open>Python values\<close>

text \<open>
  A Python \<^verbatim>\<open>str\<close> is a \<^typ>\<open>string\<close>, one \<^typ>\<open>char\<close> for each code point below 256.
  A course is a Python dict with string keys and string values, as \<^verbatim>\<open>json.load\<close>
  returns it and as lines 117-126 build it: an association list in insertion order, read
  with \<^const>\<open>map_of\<close>. The submitted form (\<^verbatim>\<open>request.form\<close>, a MultiDict) is an
  association list too; indexing gives the first value of the key.
\<close>

type_synonym course = "(string \<times> string) list"

type_synonym form = "(string \<times> string) list"

datatype error = KeyError string | BadRequestKeyError string

text \<open>\<^verbatim>\<open>course[key]\<close>: raises \<^verbatim>\<open>KeyError\<close> when the key is absent.\<close>

definition getitem :: "course \<Rightarrow> string \<Rightarrow> error + string" where
  "getitem d k = (case map_of d k of None \<Rightarrow> Inl (KeyError k) | Some v \<Rightarrow> Inr v)"

text \<open>\<^verbatim>\<open>request.form[key]\<close>: raises \<^verbatim>\<open>BadRequestKeyError\<close> when the key is absent.\<close>

definition form_getitem :: "form \<Rightarrow> string \<Rightarrow> error + string" where
  "form_getitem f k =
     (case map_of f k of None \<Rightarrow> Inl (BadRequestKeyError k) | Some v \<Rightarrow> Inr v)"

text \<open>
  \<^verbatim>\<open>str.isspace\<close> on the code points below 256: tab to carriage return, the four
  separators 28-31, the space, NEL (133) and the no-break space (160).
\<close>

definition isspace :: "char \<Rightarrow> bool" where
  "isspace c =
     (let n = (of_char c :: nat)
      in (9 \<le> n \<and> n \<le> 13) \<or> (28 \<le> n \<and> n \<le> 32) \<or> n = 133 \<or> n = 160)"

text \<open>\<^verbatim>\<open>str.strip()\<close>: drops the leading and the trailing whitespace.\<close>

definition strip :: "string \<Rightarrow> string" where
  "strip s = rev (dropWhile isspace (rev (dropWhile isspace s)))"

text \<open>\<^verbatim>\<open>sep.join(xs)\<close>.\<close>

fun join :: "string \<Rightarrow> string list \<Rightarrow> string" where
  "join sep [] = []"
| "join sep [x] = x"
| "join sep (x # y # ys) = x @ sep @ join sep (y # ys)"

text \<open>
  Truth value of the result of \<^verbatim>\<open>next(..., None)\<close>: \<^verbatim>\<open>None\<close> and the empty dict are
  false, every other dict is true.
\<close>

fun truthy :: "course option \<Rightarrow> bool" where
  "truthy None = False"
| "truthy (Some d) = (d \<noteq> [])"

subsection \<open>State: the course file and the flashed messages\<close>

text \<open>
  \<^verbatim>\<open>course_file\<close> is the content of \<^verbatim>\<open>COURSE_FILE\<close>: \<open>None\<close> when the file does not
  exist, otherwise the JSON array it holds. \<^verbatim>\<open>flashed\<close> is the session's list of
  flashed messages, each a category and a text, oldest first.
\<close>

record app_state =
  course_file :: "course list option"
  flashed :: "(string \<times> string) list"

datatype http_method = GET | HEAD | POST

text \<open>
  What a handler returns: a rendered template (with the course handed to it, if any)
  or a redirect to a URL.
\<close>

datatype response = RenderTemplate string "course option" | Redirect string

text \<open>\<^verbatim>\<open>flash(message, category)\<close> appends to the session's messages.\<close>

definition flash :: "string \<Rightarrow> string \<Rightarrow> app_state \<Rightarrow> app_state" where
  "flash message category st = st\<lparr>flashed := flashed st @ [(category, message)]\<rparr>"

text \<open>\<^verbatim>\<open>url_for('course_catalog')\<close>: the route of line 91.\<close>

definition url_for_course_catalog :: string where
  "url_for_course_catalog = ''/catalog''"

subsection \<open>Storage accessor (lines 62-74)\<close>

definition load_courses :: "course list option \<Rightarrow> course list" where
  "load_courses file = (case file of None \<Rightarrow> [] | Some courses \<Rightarrow> courses)"

definition save_courses :: "course \<Rightarrow> course list option \<Rightarrow> course list option" where
  "save_courses data file = Some (load_courses file @ [data])"

text \<open>The catalog a state holds: what \<^verbatim>\<open>load_courses()\<close> returns in it.\<close>

definition catalog :: "app_state \<Rightarrow> course list" where
  "catalog st = load_courses (course_file st)"

subsection \<open>Scans over the catalog\<close>

text \<open>
  \<^verbatim>\<open>next((course for course in courses if course['code'] == code), None)\<close>: the
  generator is consumed up to the first match, so only the entries up to there are
  indexed.
\<close>

fun find_course :: "string \<Rightarrow> course list \<Rightarrow> error + course option" where
  "find_course code [] = Inr None"
| "find_course code (course # courses) =
     (case getitem course ''code'' of
        Inl e \<Rightarrow> Inl e
      | Inr v \<Rightarrow> if v = code then Inr (Some course) else find_course code courses)"

text \<open>\<^verbatim>\<open>[course for course in courses if course['code'] != code]\<close>.\<close>

fun remove_code :: "string \<Rightarrow> course list \<Rightarrow> error + course list" where
  "remove_code code [] = Inr []"
| "remove_code code (course # courses) =
     (case getitem course ''code'' of
        Inl e \<Rightarrow> Inl e
      | Inr v \<Rightarrow>
          (case remove_code code courses of
             Inl e \<Rightarrow> Inl e
           | Inr rest \<Rightarrow> Inr (if v \<noteq> code then course # rest else rest)))"

subsection \<open>Adding a course (lines 109-150)\<close>

definition course_fields :: "string list" where
  "course_fields =
     [''code'', ''name'', ''instructor'', ''semester'', ''schedule'', ''classroom'',
      ''prerequisites'', ''grading'']"

definition required_fields :: "string list" where
  "required_fields = [''code'', ''name'', ''instructor'']"

text \<open>
  The dict literal of lines 117-126, key by key in the order written: each value is the
  stripped form value, and the first absent form key raises.
\<close>

fun strip_fields :: "form \<Rightarrow> string list \<Rightarrow> error + course" where
  "strip_fields f [] = Inr []"
| "strip_fields f (k # ks) =
     (case form_getitem f k of
        Inl e \<Rightarrow> Inl e
      | Inr v \<Rightarrow>
          (case strip_fields f ks of
             Inl e \<Rightarrow> Inl e
           | Inr rest \<Rightarrow> Inr ((k, strip v) # rest)))"

definition build_course :: "form \<Rightarrow> error + course" where
  "build_course f = strip_fields f course_fields"

text \<open>
  \<^verbatim>\<open>[field for field in [...] if not course[field]]\<close>: the fields whose value is the
  empty string.
\<close>

fun missing_of :: "course \<Rightarrow> string list \<Rightarrow> error + string list" where
  "missing_of course [] = Inr []"
| "missing_of course (field # others) =
     (case getitem course field of
        Inl e \<Rightarrow> Inl e
      | Inr v \<Rightarrow>
          (case missing_of course others of
             Inl e \<Rightarrow> Inl e
           | Inr rest \<Rightarrow> Inr (if v = [] then field # rest else rest)))"

definition missing_message :: "string list \<Rightarrow> string" where
  "missing_message missing_fields =
     ''The following required fields are missing: '' @ join '', '' missing_fields"

definition add_course :: "http_method \<Rightarrow> form \<Rightarrow> app_state \<Rightarrow> (error + response) \<times> app_state" where
  "add_course method f st =
     (if method = POST then
        (case build_course f of
           Inl e \<Rightarrow> (Inl e, st)
         | Inr course \<Rightarrow>
             (case missing_of course required_fields of
                Inl e \<Rightarrow> (Inl e, st)
              | Inr missing_fields \<Rightarrow>
                  if missing_fields \<noteq> [] then
                    (Inr (RenderTemplate ''add_course.html'' None),
                     flash (missing_message missing_fields) ''error'' st)
                  else
                    (Inr (Redirect url_for_course_catalog),
                     st\<lparr>course_file := save_courses course (course_file st)\<rparr>)))
      else (Inr (RenderTemplate ''add_course.html'' None), st))"

subsection \<open>Course details (lines 152-172)\<close>

definition not_found_message :: "string \<Rightarrow> string" where
  "not_found_message code =
     ''No course found with code '' @ [CHR 0x27] @ code @ [CHR 0x27] @ ''.''"

definition course_details :: "string \<Rightarrow> app_state \<Rightarrow> (error + response) \<times> app_state" where
  "course_details code st =
     (case find_course code (load_courses (course_file st)) of
        Inl e \<Rightarrow> (Inl e, st)
      | Inr course \<Rightarrow>
          if \<not> truthy course then
            (Inr (Redirect url_for_course_catalog),
             flash (not_found_message code) ''error'' st)
          else (Inr (RenderTemplate ''course_details.html'' course), st))"

subsection \<open>Deleting a course (lines 174-206)\<close>

definition deleted_message :: "string \<Rightarrow> string" where
  "deleted_message code =
     ''Course with code '' @ code @ '' has been deleted successfully.''"

definition delete_course :: "string \<Rightarrow> app_state \<Rightarrow> (error + response) \<times> app_state" where
  "delete_course code st =
     (case find_course code (load_courses (course_file st)) of
        Inl e \<Rightarrow> (Inl e, st)
      | Inr course_to_delete \<Rightarrow>
          if truthy course_to_delete then
            (case remove_code code (load_courses (course_file st)) of
               Inl e \<Rightarrow> (Inl e, st)
             | Inr courses \<Rightarrow>
                 (Inr (Redirect url_for_course_catalog),
                  flash (deleted_message code) ''success''
                    (st\<lparr>course_file := Some courses\<rparr>)))
          else
            (Inr (Redirect url_for_course_catalog),
             flash (not_found_message code) ''error'' st))"

subsection \<open>Sequences of requests\<close>

text \<open>
  A request to one of the three routes that touch the course file or the flashed
  messages (lines 109, 152 and 174), the handler the route dispatches to, and the state
  after a list of requests served one after the other.
\<close>

datatype request = Add http_method form | Details string | Delete string

fun handle :: "request \<Rightarrow> app_state \<Rightarrow> (error + response) \<times> app_state" where
  "handle (Add method f) st = add_course method f st"
| "handle (Details code) st = course_details code st"
| "handle (Delete code) st = delete_course code st"

fun run :: "request list \<Rightarrow> app_state \<Rightarrow> app_state" where
  "run [] st = st"
| "run (r # rs) st = run rs (snd (handle r st))"

subsection \<open>Reading the catalog\<close>

text \<open>The code of an entry: the value under \<^verbatim>\<open>'code'\<close>, if the entry has one.\<close>

definition code_of :: "course \<Rightarrow> string option" where
  "code_of course = map_of course ''code''"

text \<open>A string with no whitespace at either end.\<close>

definition stripped :: "string \<Rightarrow> bool" where
  "stripped s = (s = [] \<or> (\<not> isspace (hd s) \<and> \<not> isspace (last s)))"

text \<open>
  What every code written by the add handler satisfies: it is there, it is not empty and
  stripping leaves it as it is.
\<close>

definition stored_code_ok :: "course \<Rightarrow> bool" where
  "stored_code_ok e = (case code_of e of None \<Rightarrow> False | Some k \<Rightarrow> k \<noteq> [] \<and> strip k = k)"

subsection \<open>Sample requests\<close>

text \<open>
  A submitted form with all eight fields, the state before any request, the state
  after the same code has been submitted twice, and a state with three courses of which
  the last two share a code.
\<close>

definition sample_form :: "string \<Rightarrow> string \<Rightarrow> form" where
  "sample_form code name =
     [(''code'', code), (''name'', name), (''instructor'', ''Dr. Rao''),
      (''semester'', ''Fall''), (''schedule'', ''Mon 10:00''), (''classroom'', ''AB 1/101''),
      (''prerequisites'', ''''), (''grading'', ''Letter'')]"

text \<open>A submitted form that carries the three required fields only.\<close>

definition short_form :: "string \<Rightarrow> string \<Rightarrow> form" where
  "short_form code name = [(''code'', code), (''name'', name), (''instructor'', ''Dr. Rao'')]"

definition initial_state :: app_state where
  "initial_state = \<lparr>course_file = None, flashed = []\<rparr>"

definition two_same_code :: app_state where
  "two_same_code =
     snd (add_course POST (sample_form '' CS203 '' ''Software Tools'')
       (snd (add_course POST (sample_form ''CS203'' ''Tools and Techniques'') initial_state)))"

definition three_courses :: app_state where
  "three_courses =
     snd (add_course POST (sample_form ''CS203'' ''Software Tools'')
       (snd (add_course POST (sample_form ''CS203 '' ''Tools and Techniques'')
         (snd (add_course POST (sample_form ''MA102'' ''Calculus'') initial_state)))))"


section \<open>Properties of the scans and of stripping\<close>

text \<open>
  On entries that carry a code the two scans are \<^const>\<open>find\<close>-like and
  \<^const>\<open>filter\<close>; an entry without one makes them raise.
\<close>

lemma getitem_code:
  "getitem course ''code'' =
     (case code_of course of None \<Rightarrow> Inl (KeyError ''code'') | Some v \<Rightarrow> Inr v)"
  by (simp add: getitem_def code_of_def)

lemma find_course_absent:
  "\<forall>e\<in>set courses. \<exists>k. code_of e = Some k \<and> k \<noteq> code \<Longrightarrow>
   find_course code courses = Inr None"
  by (induction courses) (auto simp: getitem_code)

lemma find_course_first:
  "\<forall>x\<in>set pre. \<exists>k. code_of x = Some k \<and> k \<noteq> code \<Longrightarrow> code_of e = Some code \<Longrightarrow>
   find_course code (pre @ e # post) = Inr (Some e)"
  by (induction pre) (auto simp: getitem_code)

lemma remove_code_filter:
  "\<forall>e\<in>set courses. code_of e \<noteq> None \<Longrightarrow>
   remove_code code courses = Inr (filter (\<lambda>e. code_of e \<noteq> Some code) courses)"
  by (induction courses) (auto simp: getitem_code)

lemma code_of_nonempty: "code_of e = Some k \<Longrightarrow> e \<noteq> []"
  by (auto simp: code_of_def)

text \<open>The record built from the form, and the required fields found empty in it.\<close>

lemma strip_fields_keys: "strip_fields f ks = Inr course \<Longrightarrow> map fst course = ks"
  by (induction ks arbitrary: course) (auto split: sum.splits)

lemma strip_fields_value:
  "strip_fields f ks = Inr course \<Longrightarrow> k \<in> set ks \<Longrightarrow>
   \<exists>v. map_of f k = Some v \<and> map_of course k = Some (strip v)"
proof (induction ks arbitrary: course)
  case Nil
  then show ?case by simp
next
  case (Cons a ks)
  from Cons.prems(1) obtain v rest where v: "map_of f a = Some v"
    and rest: "strip_fields f ks = Inr rest" and course: "course = (a, strip v) # rest"
    by (auto simp: form_getitem_def split: option.splits sum.splits)
  show ?case
  proof (cases "k = a")
    case True
    then show ?thesis using v course by simp
  next
    case False
    with Cons.prems(2) have "k \<in> set ks" by simp
    from Cons.IH [OF rest this] show ?thesis using False course by simp
  qed
qed

lemma strip_fields_present:
  "\<forall>k\<in>set ks. map_of f k \<noteq> None \<Longrightarrow> \<exists>course. strip_fields f ks = Inr course"
  by (induction ks) (auto simp: form_getitem_def split: option.splits sum.splits)

lemma missing_of_filter:
  "\<forall>k\<in>set ks. map_of course k \<noteq> None \<Longrightarrow>
   missing_of course ks = Inr (filter (\<lambda>k. map_of course k = Some []) ks)"
  by (induction ks) (auto simp: getitem_def split: option.splits sum.splits)

text \<open>The equations that evaluate the handlers on the sample requests.\<close>

lemmas model_defs =
  add_course_def build_course_def course_fields_def required_fields_def form_getitem_def
  getitem_def strip_def isspace_def save_courses_def load_courses_def catalog_def
  course_details_def delete_course_def flash_def missing_message_def not_found_message_def
  deleted_message_def url_for_course_catalog_def code_of_def sample_form_def initial_state_def


lemma two_same_code_eval:
  "two_same_code =
     \<lparr>course_file = Some
        [sample_form ''CS203'' ''Tools and Techniques'', sample_form ''CS203'' ''Software Tools''],
      flashed = []\<rparr>"
  by (simp add: two_same_code_def model_defs)

text \<open>
  \<^const>\<open>strip\<close> returns the middle of its argument, between two runs of whitespace,
  and what it returns has whitespace at neither end.
\<close>

lemma strip_split:
  "\<exists>a b. s = a @ strip s @ b \<and> list_all isspace a \<and> list_all isspace b"
proof -
  let ?a = "takeWhile isspace s"
  let ?t = "dropWhile isspace s"
  let ?b = "rev (takeWhile isspace (rev ?t))"
  have "rev ?t = takeWhile isspace (rev ?t) @ dropWhile isspace (rev ?t)" by simp
  then have "?t = strip s @ ?b"
    unfolding strip_def by (metis rev_append rev_rev_ident)
  then have "s = ?a @ strip s @ ?b" by (metis takeWhile_dropWhile_id)
  moreover have "list_all isspace ?a"
    by (simp add: list_all_iff) (meson set_takeWhileD)
  moreover have "list_all isspace ?b"
    by (simp add: list_all_iff) (meson set_takeWhileD)
  ultimately show ?thesis by blast
qed

lemma strip_stripped: "stripped (strip s)"
proof (cases "strip s = []")
  case True
  then show ?thesis by (simp add: stripped_def)
next
  case False
  let ?t = "dropWhile isspace s"
  let ?u = "dropWhile isspace (rev ?t)"
  from False have u: "?u \<noteq> []" by (simp add: strip_def)
  then have "\<not> isspace (hd ?u)" by (rule hd_dropWhile)
  then have l: "\<not> isspace (last (strip s))" using u by (simp add: strip_def last_rev)
  have "?t \<noteq> []" using u by (metis dropWhile.simps(1) rev.simps(1))
  then have h: "\<not> isspace (hd ?t)" by (rule hd_dropWhile)
  obtain b where "?t = strip s @ b"
    by (metis strip_def rev_append rev_rev_ident takeWhile_dropWhile_id)
  with False have "hd ?t = hd (strip s)" by (metis hd_append2)
  with h l show ?thesis by (simp add: stripped_def)
qed

section \<open>Properties of the handlers\<close>

lemma find_course_present:
  "\<forall>e\<in>set courses. code_of e \<noteq> None \<Longrightarrow> \<exists>e\<in>set courses. code_of e = Some code \<Longrightarrow>
   \<exists>e. find_course code courses = Inr (Some e) \<and> e \<noteq> []"
proof (induction courses)
  case Nil
  then show ?case by simp
next
  case (Cons a courses)
  from Cons.prems(1) obtain k where k: "code_of a = Some k" by auto
  show ?case
  proof (cases "k = code")
    case True
    with k show ?thesis by (simp add: getitem_code code_of_nonempty)
  next
    case False
    with k Cons.prems have "\<forall>e\<in>set courses. code_of e \<noteq> None"
      and "\<exists>e\<in>set courses. code_of e = Some code" by auto
    from Cons.IH [OF this] show ?thesis using k False by (simp add: getitem_code)
  qed
qed

lemma length_filter_split:
  "length (filter (\<lambda>e. P e) xs) + length (filter (\<lambda>e. \<not> P e) xs) = length xs"
  by (induction xs) auto

lemma delete_course_present:
  assumes "\<forall>e\<in>set (catalog st). code_of e \<noteq> None"
    and "\<exists>e\<in>set (catalog st). code_of e = Some c"
  shows "delete_course c st =
     (Inr (Redirect url_for_course_catalog),
      flash (deleted_message c) ''success''
        (st\<lparr>course_file := Some (filter (\<lambda>e. code_of e \<noteq> Some c) (catalog st))\<rparr>))"
proof -
  from find_course_present [OF assms] obtain e
    where "find_course c (catalog st) = Inr (Some e)" and "e \<noteq> []" by blast
  then show ?thesis
    using remove_code_filter [OF assms(1), of c]
    by (simp add: delete_course_def catalog_def)
qed

lemma delete_course_absent:
  assumes "\<forall>e\<in>set (catalog st). \<exists>k. code_of e = Some k \<and> k \<noteq> c"
  shows "delete_course c st =
     (Inr (Redirect url_for_course_catalog), flash (not_found_message c) ''error'' st)"
  using find_course_absent [OF assms] by (simp add: delete_course_def catalog_def)

lemma catalog_flash: "catalog (flash m k st) = catalog st"
  by (simp add: catalog_def flash_def)

lemma catalog_update: "catalog (st\<lparr>course_file := Some cs\<rparr>) = cs"
  by (simp add: catalog_def load_courses_def)

lemma three_courses_eval:
  "three_courses =
     \<lparr>course_file = Some
        [sample_form ''MA102'' ''Calculus'', sample_form ''CS203'' ''Tools and Techniques'',
         sample_form ''CS203'' ''Software Tools''],
      flashed = []\<rparr>"
  by (simp add: three_courses_def model_defs)

lemma build_course_code:
  assumes "build_course f = Inr course"
  shows "code_of course = map_option strip (map_of f ''code'')"
  using strip_fields_value [of f course_fields course "''code''"] assms
  by (auto simp: build_course_def code_of_def course_fields_def)

lemma remove_code_result:
  "remove_code c cs = Inr r \<Longrightarrow> r = filter (\<lambda>e. code_of e \<noteq> Some c) cs"
  by (induction cs arbitrary: r) (auto simp: getitem_code split: option.splits sum.splits)

lemma catalog_save:
  "catalog (st\<lparr>course_file := save_courses course (course_file st)\<rparr>) = catalog st @ [course]"
  by (simp add: catalog_def save_courses_def load_courses_def)

lemma required_subset: "k \<in> set required_fields \<Longrightarrow> k \<in> set course_fields"
  by (auto simp: required_fields_def course_fields_def)

lemma build_course_missing:
  assumes "build_course f = Inr course"
  shows "missing_of course required_fields =
     Inr (filter (\<lambda>k. map_option strip (map_of f k) = Some []) required_fields)"
proof -
  have present: "\<exists>v. map_of f k = Some v \<and> map_of course k = Some (strip v)"
    if "k \<in> set required_fields" for k
    using assms that strip_fields_value [of f course_fields course k]
    by (simp add: build_course_def required_subset)
  then have "\<forall>k\<in>set required_fields. map_of course k \<noteq> None" by fastforce
  then have "missing_of course required_fields =
     Inr (filter (\<lambda>k. map_of course k = Some []) required_fields)"
    by (rule missing_of_filter)
  moreover have "filter (\<lambda>k. map_of course k = Some []) required_fields =
     filter (\<lambda>k. map_option strip (map_of f k) = Some []) required_fields"
    by (rule filter_cong) (use present in fastforce)+
  ultimately show ?thesis by simp
qed

lemma build_course_present:
  "\<forall>k\<in>set course_fields. map_of f k \<noteq> None \<Longrightarrow> \<exists>course. build_course f = Inr course"
  unfolding build_course_def by (rule strip_fields_present)

lemma add_course_post:
  assumes "build_course f = Inr course"
  shows "add_course POST f st =
     (let missing_fields = filter (\<lambda>k. map_option strip (map_of f k) = Some []) required_fields
      in if missing_fields \<noteq> [] then
           (Inr (RenderTemplate ''add_course.html'' None),
            flash (missing_message missing_fields) ''error'' st)
         else
           (Inr (Redirect url_for_course_catalog),
            st\<lparr>course_file := save_courses course (course_file st)\<rparr>))"
  using assms build_course_missing [OF assms] by (simp add: add_course_def Let_def)

lemma add_course_duplicate:
  assumes "\<forall>k\<in>set course_fields. map_of f k \<noteq> None"
    and "\<forall>k\<in>set required_fields. map_option strip (map_of f k) \<noteq> Some []"
    and "map_option strip (map_of f ''code'') = Some c"
    and "\<exists>e\<in>set (catalog st). code_of e = Some c"
  shows "fst (add_course POST f st) = Inr (Redirect url_for_course_catalog) \<and>
     (\<exists>course. catalog (snd (add_course POST f st)) = catalog st @ [course] \<and>
        code_of course = Some c) \<and>
     2 \<le> length (filter (\<lambda>e. code_of e = Some c) (catalog (snd (add_course POST f st))))"
proof -
  from build_course_present [OF assms(1)] obtain course where course: "build_course f = Inr course" ..
  from assms(2) have none: "filter (\<lambda>k. map_option strip (map_of f k) = Some []) required_fields = []"
    by (simp add: filter_empty_conv)
  from add_course_post [OF course, of st] none
  have result: "add_course POST f st =
      (Inr (Redirect url_for_course_catalog),
       st\<lparr>course_file := save_courses course (course_file st)\<rparr>)"
    by simp
  have code: "code_of course = Some c"
    using build_course_code [OF course] assms(3) by simp
  have after: "catalog (snd (add_course POST f st)) = catalog st @ [course]"
    by (simp add: result catalog_save)
  from assms(4) have "filter (\<lambda>e. code_of e = Some c) (catalog st) \<noteq> []"
    by (auto simp: filter_empty_conv)
  then have "1 \<le> length (filter (\<lambda>e. code_of e = Some c) (catalog st))"
    by (cases "filter (\<lambda>e. code_of e = Some c) (catalog st)") auto
  with code after have "2 \<le> length (filter (\<lambda>e. code_of e = Some c) (catalog (snd (add_course POST f st))))"
    by simp
  with result code after show ?thesis by simp
qed

lemma add_course_redirect:
  assumes "fst (add_course m f st) = Inr (Redirect url_for_course_catalog)"
  shows "\<exists>course. build_course f = Inr course \<and>
     snd (add_course m f st) = st\<lparr>course_file := save_courses course (course_file st)\<rparr>"
  using assms by (auto simp: add_course_def split: if_splits sum.splits)

section \<open>What the handlers keep true of the stored codes\<close>

lemma stripped_strip: "stripped s \<Longrightarrow> strip s = s"
proof (cases "s = []")
  case True
  then show ?thesis by (simp add: strip_def)
next
  case False
  assume "stripped s"
  with False have h: "\<not> isspace (hd s)" and l: "\<not> isspace (last s)"
    by (auto simp: stripped_def)
  from False h have "dropWhile isspace s = s" by (cases s) auto
  moreover from False l have "dropWhile isspace (rev s) = rev s"
    by (cases "rev s") (auto simp: last_rev [symmetric] hd_rev)
  ultimately show ?thesis by (simp add: strip_def)
qed

lemma strip_idem: "strip (strip s) = strip s"
  by (rule stripped_strip) (rule strip_stripped)

lemma add_course_keeps_codes:
  assumes "list_all stored_code_ok (catalog st)"
  shows "list_all stored_code_ok (catalog (snd (add_course m f st)))"
proof (cases "fst (add_course m f st) = Inr (Redirect url_for_course_catalog)")
  case True
  from add_course_redirect [OF True] obtain course
    where built: "build_course f = Inr course"
      and after: "snd (add_course m f st) = st\<lparr>course_file := save_courses course (course_file st)\<rparr>"
    by blast
  from True have post: "m = POST"
    by (auto simp: add_course_def split: if_splits)
  have none: "filter (\<lambda>k. map_option strip (map_of f k) = Some []) required_fields = []"
  proof (rule ccontr)
    assume "filter (\<lambda>k. map_option strip (map_of f k) = Some []) required_fields \<noteq> []"
    with add_course_post [OF built, of st] True post show False by simp
  qed
  then have "map_option strip (map_of f ''code'') \<noteq> Some []"
    by (auto simp: filter_empty_conv required_fields_def)
  moreover from build_course_code [OF built]
  have code: "code_of course = map_option strip (map_of f ''code'')" .
  moreover from strip_fields_value [of f course_fields course "''code''"] built
  obtain v where "map_of f ''code'' = Some v"
    by (auto simp: build_course_def course_fields_def)
  ultimately have "stored_code_ok course"
    by (simp add: stored_code_ok_def strip_idem)
  with assms show ?thesis by (simp add: after catalog_save)
next
  case False
  then have "catalog (snd (add_course m f st)) = catalog st"
    by (auto simp: add_course_def catalog_flash url_for_course_catalog_def split: if_splits sum.splits)
  with assms show ?thesis by simp
qed

lemma handle_keeps_codes:
  assumes "list_all stored_code_ok (catalog st)"
  shows "list_all stored_code_ok (catalog (snd (handle r st)))"
proof (cases r)
  case (Add m f)
  with add_course_keeps_codes [OF assms] show ?thesis by simp
next
  case (Details c)
  have "catalog (snd (course_details c st)) = catalog st"
    by (auto simp: course_details_def catalog_flash split: sum.splits)
  with Details assms show ?thesis by simp
next
  case (Delete c)
  have "catalog (snd (delete_course c st)) = catalog st \<or>
      catalog (snd (delete_course c st)) = filter (\<lambda>e. code_of e \<noteq> Some c) (catalog st)"
    by (auto simp: delete_course_def catalog_flash catalog_update catalog_def [symmetric]
        dest: remove_code_result split: sum.splits)
  with Delete assms show ?thesis by (auto simp: list_all_iff)
qed

lemma run_keeps_codes:
  "list_all stored_code_ok (catalog st) \<Longrightarrow> list_all stored_code_ok (catalog (run reqs st))"
  by (induction reqs arbitrary: st) (simp_all add: handle_keeps_codes)

lemma run_from_missing_file:
  "course_file st = None \<Longrightarrow> list_all stored_code_ok (catalog (run reqs st))"
  by (rule run_keeps_codes) (simp add: catalog_def load_courses_def)

lemma run_three_courses:
  "run [Add POST (sample_form ''MA102'' ''Calculus''),
        Add POST (sample_form ''CS203 '' ''Tools and Techniques''),
        Add POST (sample_form ''CS203'' ''Software Tools'')] initial_state = three_courses"
  by (simp add: three_courses_def)

section \<open>Deleting and adding change the catalog's size\<close>

text \<open>
  Claim C1 as stated fails: after the form with code \<^verbatim>\<open>CS203\<close> has been submitted
  twice the catalog has two entries with that code, and deleting \<^verbatim>\<open>CS203\<close> leaves
  none of them, two fewer rather than one.
\<close>

theorem delete_course_duplicates_counterexample:
  "Some ''CS203'' \<in> set (map code_of (catalog two_same_code)) \<and>
   length (catalog two_same_code) = 2 \<and>
   length (catalog (snd (delete_course ''CS203'' two_same_code))) = 0"
  by (simp add: two_same_code_eval model_defs)

text \<open>
  Claim C1, amended: in a catalog whose entries all carry a code, deleting a code \<open>c\<close>
  that occurs removes every entry whose code is \<open>c\<close> and keeps the others. The length
  drops by the number of entries with code \<open>c\<close>, which is at least one, and by exactly
  one when \<open>c\<close> occurs once.
\<close>

theorem delete_course_removes_matching:
  assumes "\<forall>e\<in>set (catalog st). code_of e \<noteq> None"
    and "\<exists>e\<in>set (catalog st). code_of e = Some c"
  shows "catalog (snd (delete_course c st)) = filter (\<lambda>e. code_of e \<noteq> Some c) (catalog st) \<and>
     length (catalog (snd (delete_course c st))) =
       length (catalog st) - length (filter (\<lambda>e. code_of e = Some c) (catalog st)) \<and>
     1 \<le> length (filter (\<lambda>e. code_of e = Some c) (catalog st)) \<and>
     (length (filter (\<lambda>e. code_of e = Some c) (catalog st)) = 1 \<longrightarrow>
        length (catalog (snd (delete_course c st))) + 1 = length (catalog st))"
proof -
  let ?same = "filter (\<lambda>e. code_of e = Some c) (catalog st)"
  let ?rest = "filter (\<lambda>e. code_of e \<noteq> Some c) (catalog st)"
  have after: "catalog (snd (delete_course c st)) = ?rest"
    by (simp add: delete_course_present [OF assms] catalog_flash catalog_update)
  have total: "length ?same + length ?rest = length (catalog st)"
    by (rule length_filter_split)
  from assms(2) have "?same \<noteq> []" by (auto simp: filter_empty_conv)
  then have pos: "1 \<le> length ?same" by (cases ?same) auto
  from after total pos show ?thesis by simp
qed

text \<open>Claim C1, witness: the twice-submitted code, where both entries go.\<close>

theorem delete_course_removes_matching_witness:
  "catalog (snd (delete_course ''CS203'' two_same_code)) = [] \<and>
   length (catalog two_same_code) = 2 \<and>
   length (filter (\<lambda>e. code_of e = Some ''CS203'') (catalog two_same_code)) = 2"
  using delete_course_removes_matching [of two_same_code "''CS203''"]
  by (simp add: two_same_code_eval model_defs)

text \<open>
  Claim C2: whatever the file holds (or if it is missing) and whatever the record,
  \<^verbatim>\<open>save_courses\<close> leaves a catalog exactly one entry longer.
\<close>

theorem save_courses_length:
  "length (load_courses (save_courses data file)) = length (load_courses file) + 1"
  by (simp add: save_courses_def load_courses_def)

section \<open>Unknown codes\<close>

text \<open>
  Claim C3: when every entry of the catalog carries a code and none of them is \<open>c\<close>,
  the detail handler answers with a redirect to the catalog page, flashes the error
  message for \<open>c\<close>, leaves the file alone and renders no template.
\<close>

theorem course_details_unknown_code:
  assumes "\<forall>e\<in>set (catalog st). \<exists>k. code_of e = Some k \<and> k \<noteq> c"
  shows "fst (course_details c st) = Inr (Redirect url_for_course_catalog) \<and>
     flashed (snd (course_details c st)) = flashed st @ [(''error'', not_found_message c)] \<and>
     course_file (snd (course_details c st)) = course_file st \<and>
     (\<forall>t x. fst (course_details c st) \<noteq> Inr (RenderTemplate t x))"
  using find_course_absent [OF assms]
  by (simp add: course_details_def catalog_def flash_def)

text \<open>Claim C3, witness: a code that the two-entry catalog does not hold.\<close>

theorem course_details_unknown_code_witness:
  "course_details ''CS999'' two_same_code =
     (Inr (Redirect ''/catalog''),
      two_same_code\<lparr>flashed :=
        [(''error'', ''No course found with code '' @ [CHR 0x27] @ ''CS999'' @ [CHR 0x27] @ ''.'')]\<rparr>)"
  using course_details_unknown_code [of two_same_code "''CS999''"]
  by (simp add: two_same_code_eval model_defs)

text \<open>
  Claim C5: when every entry of the catalog carries a code and none of them is \<open>c\<close>,
  the delete handler flashes the error message for \<open>c\<close>, redirects to the catalog page
  and leaves the course file, hence the catalog, as it was.
\<close>

theorem delete_course_unknown_code:
  assumes "\<forall>e\<in>set (catalog st). \<exists>k. code_of e = Some k \<and> k \<noteq> c"
  shows "fst (delete_course c st) = Inr (Redirect url_for_course_catalog) \<and>
     flashed (snd (delete_course c st)) = flashed st @ [(''error'', not_found_message c)] \<and>
     course_file (snd (delete_course c st)) = course_file st \<and>
     catalog (snd (delete_course c st)) = catalog st"
  by (simp add: delete_course_absent [OF assms] flash_def catalog_def)

text \<open>Claim C5, witness: deleting a code that the two-entry catalog does not hold.\<close>

theorem delete_course_unknown_code_witness:
  "delete_course ''CS999'' two_same_code =
     (Inr (Redirect ''/catalog''),
      two_same_code\<lparr>flashed :=
        [(''error'', ''No course found with code '' @ [CHR 0x27] @ ''CS999'' @ [CHR 0x27] @ ''.'')]\<rparr>)"
  using delete_course_unknown_code [of two_same_code "''CS999''"]
  by (simp add: two_same_code_eval model_defs)

section \<open>Missing required fields\<close>

text \<open>
  Claim C4 as stated fails for a POST that does not carry all eight fields: with a code
  of blanks only and no \<^verbatim>\<open>semester\<close> field, building the record raises
  \<^verbatim>\<open>BadRequestKeyError\<close> before the required fields are looked at, and nothing is
  flashed.
\<close>

theorem add_course_absent_field_counterexample:
  "map_option strip (map_of (short_form ''  '' ''Calculus'') ''code'') = Some [] \<and>
   add_course POST (short_form ''  '' ''Calculus'') two_same_code =
     (Inl (BadRequestKeyError ''semester''), two_same_code) \<and>
   flashed two_same_code = []"
  by (simp add: two_same_code_eval short_form_def model_defs)

text \<open>
  Claim C4, amended: a POST that carries all eight form fields and in which one of the
  fields \<^verbatim>\<open>code\<close>, \<^verbatim>\<open>name\<close>, \<^verbatim>\<open>instructor\<close> is empty after stripping is
  answered with the add form and one flashed error message, which lists the empty
  required fields (at least one), and leaves the course file unchanged. The file is left
  unchanged also when the form lacks fields.
\<close>

theorem add_course_missing_required:
  assumes "\<exists>k\<in>set required_fields. \<exists>v. map_of f k = Some v \<and> strip v = []"
  shows "course_file (snd (add_course POST f st)) = course_file st \<and>
     ((\<forall>k\<in>set course_fields. map_of f k \<noteq> None) \<longrightarrow>
        fst (add_course POST f st) = Inr (RenderTemplate ''add_course.html'' None) \<and>
        filter (\<lambda>k. map_option strip (map_of f k) = Some []) required_fields \<noteq> [] \<and>
        flashed (snd (add_course POST f st)) =
          flashed st @
          [(''error'', missing_message
              (filter (\<lambda>k. map_option strip (map_of f k) = Some []) required_fields))])"
proof -
  let ?missing = "filter (\<lambda>k. map_option strip (map_of f k) = Some []) required_fields"
  from assms have missing: "?missing \<noteq> []" by (auto simp: filter_empty_conv)
  have unchanged: "course_file (snd (add_course POST f st)) = course_file st"
  proof (cases "build_course f")
    case (Inl e)
    then show ?thesis by (simp add: add_course_def)
  next
    case (Inr course)
    from add_course_post [OF this] missing show ?thesis by (simp add: flash_def)
  qed
  have "fst (add_course POST f st) = Inr (RenderTemplate ''add_course.html'' None) \<and>
      flashed (snd (add_course POST f st)) = flashed st @ [(''error'', missing_message ?missing)]"
    if "\<forall>k\<in>set course_fields. map_of f k \<noteq> None"
  proof -
    from build_course_present [OF that] obtain course where "build_course f = Inr course" ..
    from add_course_post [OF this] missing show ?thesis by (simp add: flash_def)
  qed
  with unchanged missing show ?thesis by blast
qed

text \<open>Claim C4, witness: a name of blanks only, submitted to the two-entry catalog.\<close>

theorem add_course_missing_required_witness:
  "add_course POST (sample_form ''CS301'' ''   '') two_same_code =
     (Inr (RenderTemplate ''add_course.html'' None),
      two_same_code\<lparr>flashed :=
        [(''error'', ''The following required fields are missing: name'')]\<rparr>)"
  using add_course_missing_required [of "sample_form ''CS301'' ''   ''" two_same_code]
  by (simp add: two_same_code_eval model_defs)

section \<open>Codes are not unique\<close>

text \<open>
  Claim C6 as stated fails for a POST that does not carry all eight fields: the catalog
  built by two submissions holds the code \<^verbatim>\<open>CS203\<close>, the form submits that code with
  a name and an instructor but no \<^verbatim>\<open>semester\<close> field, and the handler raises
  \<^verbatim>\<open>BadRequestKeyError\<close>; nothing is appended.
\<close>

theorem add_course_same_code_absent_field_counterexample:
  "Some ''CS203'' \<in> set (map code_of (catalog two_same_code)) \<and>
   map_of (short_form ''CS203'' ''Tools Lab'') ''code'' = Some ''CS203'' \<and>
   map_option strip (map_of (short_form ''CS203'' ''Tools Lab'') ''name'') = Some ''Tools Lab'' \<and>
   map_option strip (map_of (short_form ''CS203'' ''Tools Lab'') ''instructor'') = Some ''Dr. Rao'' \<and>
   add_course POST (short_form ''CS203'' ''Tools Lab'') two_same_code =
     (Inl (BadRequestKeyError ''semester''), two_same_code) \<and>
   length (catalog two_same_code) = 2"
  by (simp add: two_same_code_eval short_form_def model_defs)

text \<open>
  Claim C6, amended: in every catalog that a sequence of requests has built from a
  missing file, a code \<open>c\<close> that occurs is non-empty and already stripped; and a POST
  that carries all eight form fields, whose code is \<open>c\<close> (as submitted or after
  stripping) and whose name and instructor are non-empty after stripping, succeeds with
  a redirect and appends a course with code \<open>c\<close>, so that the catalog then holds at
  least two entries with code \<open>c\<close>. No check on the codes already stored is made.
\<close>

theorem add_course_same_code:
  assumes "course_file st = None"
    and "\<exists>e\<in>set (catalog (run reqs st)). code_of e = Some c"
    and "\<forall>k\<in>set course_fields. map_of f k \<noteq> None"
    and "map_option strip (map_of f ''code'') = Some c"
    and "map_option strip (map_of f ''name'') \<noteq> Some []"
    and "map_option strip (map_of f ''instructor'') \<noteq> Some []"
  shows "c \<noteq> [] \<and> strip c = c \<and>
     fst (add_course POST f (run reqs st)) = Inr (Redirect url_for_course_catalog) \<and>
     (\<exists>course. catalog (snd (add_course POST f (run reqs st))) = catalog (run reqs st) @ [course] \<and>
        code_of course = Some c) \<and>
     2 \<le> length (filter (\<lambda>e. code_of e = Some c)
            (catalog (snd (add_course POST f (run reqs st)))))"
proof -
  from assms(2) obtain e where "e \<in> set (catalog (run reqs st))" and "code_of e = Some c"
    by blast
  with run_from_missing_file [OF assms(1), of reqs] have c: "c \<noteq> []" "strip c = c"
    by (auto simp: list_all_iff stored_code_ok_def)
  note code = assms(4)
  with c assms(5,6) have "\<forall>k\<in>set required_fields. map_option strip (map_of f k) \<noteq> Some []"
    by (auto simp: required_fields_def)
  from add_course_duplicate [OF assms(3) this code assms(2)] c show ?thesis by simp
qed

text \<open>
  Claim C6, witness: after three submissions, two of them with code \<^verbatim>\<open>CS203\<close>, a
  fourth with that code is appended.
\<close>

theorem add_course_same_code_witness:
  "add_course POST (sample_form ''  CS203'' ''Tools Lab'') three_courses =
     (Inr (Redirect ''/catalog''),
      three_courses\<lparr>course_file := Some
        [sample_form ''MA102'' ''Calculus'', sample_form ''CS203'' ''Tools and Techniques'',
         sample_form ''CS203'' ''Software Tools'', sample_form ''CS203'' ''Tools Lab'']\<rparr>)"
  using add_course_same_code [of initial_state
      "[Add POST (sample_form ''MA102'' ''Calculus''),
        Add POST (sample_form ''CS203 '' ''Tools and Techniques''),
        Add POST (sample_form ''CS203'' ''Software Tools'')]"
      "''CS203''" "sample_form ''  CS203'' ''Tools Lab''"]
  unfolding run_three_courses
  by (simp add: three_courses_eval model_defs)

section \<open>Append on add, filter on delete\<close>

text \<open>
  Claim C7: \<^verbatim>\<open>save_courses\<close> puts the new course after the existing entries, which
  stay as they are and in order; the add handler appends at most one entry; on a catalog
  whose entries all carry a code, deleting \<open>c\<close> leaves exactly the entries whose code
  differs from \<open>c\<close>, in order; whatever the catalog, a delete leaves it unchanged or
  filtered in that way; and the detail handler leaves it unchanged. No handler rewrites
  an entry.
\<close>

theorem add_appends_delete_filters:
  "load_courses (save_courses data file) = load_courses file @ [data] \<and>
   (\<exists>new. catalog (snd (add_course m f st)) = catalog st @ new \<and> length new \<le> 1) \<and>
   ((\<forall>e\<in>set (catalog st). code_of e \<noteq> None) \<longrightarrow>
      catalog (snd (delete_course c st)) = filter (\<lambda>e. code_of e \<noteq> Some c) (catalog st)) \<and>
   (catalog (snd (delete_course c st)) = catalog st \<or>
    catalog (snd (delete_course c st)) = filter (\<lambda>e. code_of e \<noteq> Some c) (catalog st)) \<and>
   catalog (snd (course_details c st)) = catalog st"
proof -
  have save: "load_courses (save_courses data file) = load_courses file @ [data]"
    by (simp add: save_courses_def load_courses_def)
  have add: "\<exists>new. catalog (snd (add_course m f st)) = catalog st @ new \<and> length new \<le> 1"
    by (auto simp: add_course_def catalog_save catalog_flash split: sum.splits)
  have del: "catalog (snd (delete_course c st)) = filter (\<lambda>e. code_of e \<noteq> Some c) (catalog st)"
    if wf: "\<forall>e\<in>set (catalog st). code_of e \<noteq> None"
  proof (cases "\<exists>e\<in>set (catalog st). code_of e = Some c")
    case True
    show ?thesis
      by (simp add: delete_course_present [OF wf True] catalog_flash catalog_update)
  next
    case False
    with wf have absent: "\<forall>e\<in>set (catalog st). \<exists>k. code_of e = Some k \<and> k \<noteq> c" by fastforce
    from False have "filter (\<lambda>e. code_of e \<noteq> Some c) (catalog st) = catalog st"
      by (simp add: filter_id_conv)
    then show ?thesis
      by (simp add: delete_course_absent [OF absent] catalog_flash)
  qed
  have either: "catalog (snd (delete_course c st)) = catalog st \<or>
      catalog (snd (delete_course c st)) = filter (\<lambda>e. code_of e \<noteq> Some c) (catalog st)"
    by (auto simp: delete_course_def catalog_flash catalog_update catalog_def [symmetric]
        dest: remove_code_result split: sum.splits)
  have details: "catalog (snd (course_details c st)) = catalog st"
    by (auto simp: course_details_def catalog_flash split: sum.splits)
  from save add del either details show ?thesis by blast
qed

text \<open>Claim C7, witness: deleting either code from the three-course catalog.\<close>

theorem add_appends_delete_filters_witness:
  "catalog (snd (delete_course ''MA102'' three_courses)) =
     [sample_form ''CS203'' ''Tools and Techniques'', sample_form ''CS203'' ''Software Tools''] \<and>
   catalog (snd (delete_course ''CS203'' three_courses)) = [sample_form ''MA102'' ''Calculus'']"
  using add_appends_delete_filters [of _ _ _ _ three_courses "''MA102''"]
    add_appends_delete_filters [of _ _ _ _ three_courses "''CS203''"]
  by (simp add: three_courses_eval model_defs)

section \<open>A missing file is an empty catalog\<close>

text \<open>
  Claim C8: with no course file, \<^verbatim>\<open>load_courses\<close> returns the empty list and does
  not fail, and every operation behaves as on the empty catalog: \<^verbatim>\<open>save_courses\<close>
  writes the one-entry list, the detail and delete handlers report the code as not
  found, and the add handler gives the response and the catalog it gives on a file
  holding the empty array.
\<close>

theorem missing_file_is_empty_catalog:
  "load_courses None = [] \<and>
   catalog (st\<lparr>course_file := None\<rparr>) = [] \<and>
   save_courses data None = Some [data] \<and>
   course_details c (st\<lparr>course_file := None\<rparr>) =
     (Inr (Redirect url_for_course_catalog),
      flash (not_found_message c) ''error'' (st\<lparr>course_file := None\<rparr>)) \<and>
   delete_course c (st\<lparr>course_file := None\<rparr>) =
     (Inr (Redirect url_for_course_catalog),
      flash (not_found_message c) ''error'' (st\<lparr>course_file := None\<rparr>)) \<and>
   fst (add_course m f (st\<lparr>course_file := None\<rparr>)) =
     fst (add_course m f (st\<lparr>course_file := Some []\<rparr>)) \<and>
   catalog (snd (add_course m f (st\<lparr>course_file := None\<rparr>))) =
     catalog (snd (add_course m f (st\<lparr>course_file := Some []\<rparr>)))"
proof -
  have load: "load_courses None = []" by (simp add: load_courses_def)
  then have cat: "catalog (st\<lparr>course_file := None\<rparr>) = []" by (simp add: catalog_def)
  have save: "save_courses data None = Some [data]" by (simp add: save_courses_def load)
  have details: "course_details c (st\<lparr>course_file := None\<rparr>) =
     (Inr (Redirect url_for_course_catalog),
      flash (not_found_message c) ''error'' (st\<lparr>course_file := None\<rparr>))"
    by (simp add: course_details_def load)
  have del: "delete_course c (st\<lparr>course_file := None\<rparr>) =
     (Inr (Redirect url_for_course_catalog),
      flash (not_found_message c) ''error'' (st\<lparr>course_file := None\<rparr>))"
    by (simp add: delete_course_def load)
  have add: "fst (add_course m f (st\<lparr>course_file := None\<rparr>)) =
       fst (add_course m f (st\<lparr>course_file := Some []\<rparr>)) \<and>
     catalog (snd (add_course m f (st\<lparr>course_file := None\<rparr>))) =
       catalog (snd (add_course m f (st\<lparr>course_file := Some []\<rparr>)))"
    by (auto simp: add_course_def catalog_def flash_def save_courses_def load_courses_def
        split: sum.splits)
  from load cat save details del add show ?thesis by simp
qed

section \<open>The stored record\<close>

text \<open>
  Claim C9: a successful add (the one answered with the redirect) appends one record
  whose keys are exactly the eight field names, in the order written, and whose value
  under each is the submitted form value stripped: the form value is that value between
  two runs of whitespace, and the value itself neither starts nor ends with whitespace.
\<close>

theorem add_course_stored_record:
  assumes "fst (add_course m f st) = Inr (Redirect url_for_course_catalog)"
  shows "\<exists>course. catalog (snd (add_course m f st)) = catalog st @ [course] \<and>
     map fst course =
       [''code'', ''name'', ''instructor'', ''semester'', ''schedule'', ''classroom'',
        ''prerequisites'', ''grading''] \<and>
     (\<forall>k\<in>set course_fields. \<exists>v. map_of f k = Some v \<and> map_of course k = Some (strip v) \<and>
        stripped (strip v) \<and>
        (\<exists>a b. v = a @ strip v @ b \<and> list_all isspace a \<and> list_all isspace b))"
proof -
  from add_course_redirect [OF assms] obtain course
    where built: "build_course f = Inr course"
      and after: "snd (add_course m f st) = st\<lparr>course_file := save_courses course (course_file st)\<rparr>"
    by blast
  have appended: "catalog (snd (add_course m f st)) = catalog st @ [course]"
    by (simp add: after catalog_save)
  have keys: "map fst course =
       [''code'', ''name'', ''instructor'', ''semester'', ''schedule'', ''classroom'',
        ''prerequisites'', ''grading'']"
    using strip_fields_keys [of f course_fields course] built
    by (simp add: build_course_def course_fields_def)
  have vals: "\<exists>v. map_of f k = Some v \<and> map_of course k = Some (strip v) \<and>
        stripped (strip v) \<and>
        (\<exists>a b. v = a @ strip v @ b \<and> list_all isspace a \<and> list_all isspace b)"
    if "k \<in> set course_fields" for k
  proof -
    from strip_fields_value [of f course_fields course k] built that
    obtain v where "map_of f k = Some v" and "map_of course k = Some (strip v)"
      by (auto simp: build_course_def)
    then show ?thesis using strip_stripped [of v] strip_split [of v] by simp
  qed
  show ?thesis
  proof (rule exI [of _ course], intro conjI ballI)
    show "catalog (snd (add_course m f st)) = catalog st @ [course]" by (rule appended)
    show "map fst course =
       [''code'', ''name'', ''instructor'', ''semester'', ''schedule'', ''classroom'',
        ''prerequisites'', ''grading'']" by (rule keys)
    show "\<exists>v. map_of f k = Some v \<and> map_of course k = Some (strip v) \<and>
        stripped (strip v) \<and>
        (\<exists>a b. v = a @ strip v @ b \<and> list_all isspace a \<and> list_all isspace b)"
      if "k \<in> set course_fields" for k using that by (rule vals)
  qed
qed

text \<open>Claim C9, witness: a code and a name submitted with blanks around them.\<close>

theorem add_course_stored_record_witness:
  "fst (add_course POST (sample_form ''  EE110 '' ''Circuits  '') three_courses) =
     Inr (Redirect ''/catalog'') \<and>
   catalog (snd (add_course POST (sample_form ''  EE110 '' ''Circuits  '') three_courses)) =
     catalog three_courses @ [sample_form ''EE110'' ''Circuits'']"
  using add_course_stored_record [of POST "sample_form ''  EE110 '' ''Circuits  ''" three_courses]
  by (simp add: three_courses_eval model_defs)

section \<open>Details of a code that occurs more than once\<close>

text \<open>
  Claim C10: the detail handler renders the first entry with code \<open>c\<close> in catalog
  order, whatever follows it (other entries with code \<open>c\<close> included), provided the
  entries before it carry codes, all different from \<open>c\<close>.
\<close>

theorem course_details_first_match:
  assumes "catalog st = pre @ e # post"
    and "\<forall>x\<in>set pre. \<exists>k. code_of x = Some k \<and> k \<noteq> c"
    and "code_of e = Some c"
  shows "course_details c st = (Inr (RenderTemplate ''course_details.html'' (Some e)), st)"
  using find_course_first [OF assms(2,3), of post] assms(1) code_of_nonempty [OF assms(3)]
  by (simp add: course_details_def catalog_def)

text \<open>
  Claim C10, witness: the three-course catalog has two entries with code
  \<^verbatim>\<open>CS203\<close>; the earlier one is rendered.
\<close>

theorem course_details_first_match_witness:
  "course_details ''CS203'' three_courses =
     (Inr (RenderTemplate ''course_details.html''
        (Some (sample_form ''CS203'' ''Tools and Techniques''))), three_courses) \<and>
   length (filter (\<lambda>e. code_of e = Some ''CS203'') (catalog three_courses)) = 2"
  using course_details_first_match [of three_courses "[sample_form ''MA102'' ''Calculus'']"
      "sample_form ''CS203'' ''Tools and Techniques''" "[sample_form ''CS203'' ''Software Tools'']"
      "''CS203''"]
  by (simp add: three_courses_eval model_defs)

end
